theory Spec2Isabelle
  imports Complex_Main
begin

section \<open>Tensors, variables and the framework's state primitives\<close>

text \<open>
  The optimizer of \<^verbatim>\<open>tf_utils/tf_optimizer.py\<close> works on three variables of one shape:
  the optimized variable \<^verbatim>\<open>var\<close> and its two slots \<^verbatim>\<open>m\<close> and \<^verbatim>\<open>v\<close>. A variable
  is modelled by the list of its slices along the first axis, each slice a real number
  (exact arithmetic; the arithmetic of the source is elementwise in every further axis).
  The casts to \<^verbatim>\<open>var.dtype.base_dtype\<close> are the identity on real numbers. The
  operators \<open>sqrt\<close> and \<open>/\<close> are the total functions of the reals.

  The primitives follow the framework's CPU kernels: an index outside
  \<open>[0, length x)\<close> and an update tensor whose first dimension differs from the number
  of indices are refused, and nothing is returned then.
\<close>

type_synonym tensor = "real list"

datatype tf_error =
    Shape_mismatch
  | Index_out_of_range
  | None_value
  | Key_error string
  | Attribute_error string
  | Input_missing

definition index_ok :: "tensor \<Rightarrow> int \<Rightarrow> bool" where
  "index_ok x i = (0 \<le> i \<and> i < int (length x))"

text \<open>\<^verbatim>\<open>x[i] += u\<close> for each pair of an index and its update, in order.\<close>

fun scatter_add_loop :: "tensor \<Rightarrow> (int \<times> real) list \<Rightarrow> tensor" where
  "scatter_add_loop x [] = x"
| "scatter_add_loop x ((i, u) # ius) =
     scatter_add_loop (x[nat i := x ! nat i + u]) ius"

text \<open>
  \<^verbatim>\<open>state_ops.scatter_add(x, indices, updates)\<close>: the variable after the update (the
  tensor that the op outputs is the updated variable).
\<close>

definition scatter_add :: "tensor \<Rightarrow> int list \<Rightarrow> tensor \<Rightarrow> tf_error + tensor" where
  "scatter_add x indices updates =
     (if length updates \<noteq> length indices then Inl Shape_mismatch
      else if \<not> list_all (index_ok x) indices then Inl Index_out_of_range
      else Inr (scatter_add_loop x (zip indices updates)))"

text \<open>\<^verbatim>\<open>array_ops.gather(params, indices)\<close>.\<close>

definition gather :: "tensor \<Rightarrow> int list \<Rightarrow> tf_error + tensor" where
  "gather params indices =
     (if \<not> list_all (index_ok params) indices then Inl Index_out_of_range
      else Inr (map (\<lambda>i. params ! nat i) indices))"

text \<open>
  \<^verbatim>\<open>state_ops.assign(ref, value)\<close>: the variable takes the value; the shapes must
  agree.
\<close>

definition assign :: "tensor \<Rightarrow> tensor \<Rightarrow> tf_error + tensor" where
  "assign ref val = (if length val \<noteq> length ref then Inl Shape_mismatch else Inr val)"

section \<open>MaskedAdamOptimizer\<close>

text \<open>
  The hyper-parameters the method reads from the optimizer object: the two beta
  accumulators returned by \<^verbatim>\<open>_get_beta_accumulators()\<close> and the tensors
  \<^verbatim>\<open>_lr_t\<close>, \<^verbatim>\<open>_beta1_t\<close>, \<^verbatim>\<open>_beta2_t\<close>, \<^verbatim>\<open>_epsilon_t\<close>.
\<close>

record hyper =
  beta1_power :: real
  beta2_power :: real
  lr_t :: real
  beta1_t :: real
  beta2_t :: real
  epsilon_t :: real

text \<open>The variable and its slots \<^verbatim>\<open>get_slot(var, "m")\<close>, \<^verbatim>\<open>get_slot(var, "v")\<close>.\<close>

record opt_state =
  var :: tensor
  m :: tensor
  v :: tensor

text \<open>The learning rate of the step, line 24 of the source.\<close>

definition lr :: "hyper \<Rightarrow> real" where
  "lr h = lr_t h * sqrt (1 - beta2_power h) / (1 - beta1_power h)"

text \<open>
  \<^verbatim>\<open>MaskedAdamOptimizer._apply_sparse_shared(self, grad, var, indices, scatter_add)\<close>.
  The scatter-add is the argument \<open>sc\<close>, as in the source. The ops run in the order
  their data and control dependencies impose: the decay of a slot, then the scatter-add
  into it, then the gathers, then the update of the variable.
\<close>

definition apply_sparse_shared ::
  "hyper \<Rightarrow> opt_state \<Rightarrow> tensor \<Rightarrow> int list \<Rightarrow>
   (tensor \<Rightarrow> int list \<Rightarrow> tensor \<Rightarrow> tf_error + tensor) \<Rightarrow> tf_error + opt_state" where
  "apply_sparse_shared h s grad indices sc =
     (let m_scaled_g_values = map (\<lambda>g. g * (1 - beta1_t h)) grad in
      case assign (m s) (map (\<lambda>x. x * beta1_t h) (m s)) of Inl e \<Rightarrow> Inl e | Inr m0 \<Rightarrow>
     (case sc m0 indices m_scaled_g_values of Inl e \<Rightarrow> Inl e | Inr m_t \<Rightarrow>
     (let v_scaled_g_values = map (\<lambda>g. (g * g) * (1 - beta2_t h)) grad in
      case assign (v s) (map (\<lambda>x. x * beta2_t h) (v s)) of Inl e \<Rightarrow> Inl e | Inr v0 \<Rightarrow>
     (case sc v0 indices v_scaled_g_values of Inl e \<Rightarrow> Inl e | Inr v_t \<Rightarrow>
     (case gather m_t indices of Inl e \<Rightarrow> Inl e | Inr gather_m_t \<Rightarrow>
     (case gather v_t indices of Inl e \<Rightarrow> Inl e | Inr gather_v_t \<Rightarrow>
     (let gather_v_sqrt = map sqrt gather_v_t in
      case sc (var s) indices
             (map2 (\<lambda>a b. - lr h * a / (b + epsilon_t h)) gather_m_t gather_v_sqrt) of
        Inl e \<Rightarrow> Inl e
      | Inr var_upd \<Rightarrow> Inr \<lparr>var = var_upd, m = m_t, v = v_t\<rparr>)))))))"

text \<open>
  The framework creates the slots of a variable with the shape of the variable
  (\<^verbatim>\<open>_zeros_slot\<close> in the inherited \<^verbatim>\<open>_create_slots\<close>).
\<close>

definition slots_ok :: "opt_state \<Rightarrow> bool" where
  "slots_ok s = (length (m s) = length (var s) \<and> length (v s) = length (var s))"

text \<open>An input on which the definitions are evaluated below.\<close>

definition hyper_example :: hyper where
  "hyper_example = \<lparr>beta1_power = 1/2, beta2_power = 3/4, lr_t = 1,
                     beta1_t = 1/2, beta2_t = 3/4, epsilon_t = 1\<rparr>"

definition state_example :: opt_state where
  "state_example = \<lparr>var = [1, 2], m = [0, 1], v = [0, 0]\<rparr>"

text \<open>\<^verbatim>\<open>state_ops.assign_sub(ref, value)\<close>: the variable minus the value, elementwise.\<close>

definition assign_sub :: "tensor \<Rightarrow> tensor \<Rightarrow> tf_error + tensor" where
  "assign_sub ref val =
     (if length val \<noteq> length ref then Inl Shape_mismatch
      else Inr (map2 (\<lambda>x d. x - d) ref val))"

text \<open>
  Modelled from the spec: \<^verbatim>\<open>adam.AdamOptimizer._apply_sparse_shared\<close>, the canonical sparse
  update of Adam that the optimizer is compared with, belongs to the framework and is not
  part of this repository. Its moment accumulators are the published ones (the decay of
  the slot, then the scatter-add of the scaled gradient), and its variable update is the
  dense \<^verbatim>\<open>assign_sub\<close> over the whole variable:
  \<^verbatim>\<open>var -= lr * m_t / (sqrt(v_t) + epsilon_t)\<close>.
\<close>

definition adam_reference_apply_sparse_shared ::
  "hyper \<Rightarrow> opt_state \<Rightarrow> tensor \<Rightarrow> int list \<Rightarrow>
   (tensor \<Rightarrow> int list \<Rightarrow> tensor \<Rightarrow> tf_error + tensor) \<Rightarrow> tf_error + opt_state" where
  "adam_reference_apply_sparse_shared h s grad indices sc =
     (let m_scaled_g_values = map (\<lambda>g. g * (1 - beta1_t h)) grad in
      case assign (m s) (map (\<lambda>x. x * beta1_t h) (m s)) of Inl e \<Rightarrow> Inl e | Inr m0 \<Rightarrow>
     (case sc m0 indices m_scaled_g_values of Inl e \<Rightarrow> Inl e | Inr m_t \<Rightarrow>
     (let v_scaled_g_values = map (\<lambda>g. (g * g) * (1 - beta2_t h)) grad in
      case assign (v s) (map (\<lambda>x. x * beta2_t h) (v s)) of Inl e \<Rightarrow> Inl e | Inr v0 \<Rightarrow>
     (case sc v0 indices v_scaled_g_values of Inl e \<Rightarrow> Inl e | Inr v_t \<Rightarrow>
     (let v_sqrt = map sqrt v_t in
      case assign_sub (var s) (map2 (\<lambda>a b. lr h * a / (b + epsilon_t h)) m_t v_sqrt) of
        Inl e \<Rightarrow> Inl e
      | Inr var_upd \<Rightarrow> Inr \<lparr>var = var_upd, m = m_t, v = v_t\<rparr>)))))"

subsection \<open>The class and its base class\<close>

text \<open>
  A class is the dictionary of the attributes its body defines: a method, or data such
  as the docstring. The body of a method runs operations on the state of the optimizer
  and calls methods of \<^verbatim>\<open>self\<close>, passing arguments on; the operations are the framework's
  and the repository's functions, applied to the arguments of the call.
\<close>

datatype ('a, 's) code =
    Prim "'a \<Rightarrow> 's \<Rightarrow> tf_error + 's"
  | Call string "'a \<Rightarrow> 'a"
  | Seq "('a, 's) code" "('a, 's) code"

datatype ('a, 's) attr = Method "('a, 's) code" | Data string

type_synonym ('a, 's) class_dict = "string \<rightharpoonup> ('a, 's) attr"

text \<open>
  The arguments with which \<^verbatim>\<open>_apply_sparse_shared\<close> is called: the hyper-parameters of
  \<^verbatim>\<open>self\<close>, \<^verbatim>\<open>grad\<close>, \<^verbatim>\<open>indices\<close> and \<^verbatim>\<open>scatter_add\<close> (the variable and its slots are
  the state).
\<close>

type_synonym sparse_args =
  "hyper \<times> tensor \<times> int list \<times> (tensor \<Rightarrow> int list \<Rightarrow> tensor \<Rightarrow> tf_error + tensor)"

text \<open>
  \<^verbatim>\<open>class MaskedAdamOptimizer(adam.AdamOptimizer)\<close>: the body holds the docstring and
  defines the one method \<^verbatim>\<open>_apply_sparse_shared\<close>.
\<close>

definition MaskedAdamOptimizer :: "string \<Rightarrow> (sparse_args, opt_state) class_dict" where
  "MaskedAdamOptimizer doc =
     [''__doc__'' \<mapsto> Data doc,
      ''_apply_sparse_shared'' \<mapsto>
        Method (Prim (\<lambda>(h, grad, indices, sc) s. apply_sparse_shared h s grad indices sc))]"

text \<open>
  An attribute is looked up in the class first and in its base class next. The base
  class \<^verbatim>\<open>adam.AdamOptimizer\<close> belongs to the framework and is a parameter.
\<close>

definition getattr ::
  "('a, 's) class_dict \<Rightarrow> ('a, 's) class_dict \<Rightarrow> string \<Rightarrow> ('a, 's) attr option" where
  "getattr cls base name = (case cls name of Some a \<Rightarrow> Some a | None \<Rightarrow> base name)"

text \<open>
  Running a method body on an object whose attributes are \<open>self\<close>: a call of a method of
  \<^verbatim>\<open>self\<close> looks the name up in \<open>self\<close>, so that a method inherited from the base class
  reaches what the class overrides. The first argument bounds the depth of the calls;
  \<open>None\<close> says that the bound was met. A name that is no method of \<open>self\<close> raises
  \<^verbatim>\<open>AttributeError\<close>.
\<close>

fun exec_code ::
  "nat \<Rightarrow> ('a, 's) class_dict \<Rightarrow> ('a, 's) code \<Rightarrow> 'a \<Rightarrow> 's \<Rightarrow> (tf_error + 's) option" where
  "exec_code n self (Prim f) a s = Some (f a s)"
| "exec_code n self (Seq c d) a s =
     (case exec_code n self c a s of
        None \<Rightarrow> None
      | Some (Inl e) \<Rightarrow> Some (Inl e)
      | Some (Inr s') \<Rightarrow> exec_code n self d a s')"
| "exec_code 0 self (Call name g) a s = None"
| "exec_code (Suc n) self (Call name g) a s =
     (case self name of
        Some (Method c) \<Rightarrow> exec_code n self c (g a) s
      | _ \<Rightarrow> Some (Inl (Attribute_error name)))"

text \<open>\<^verbatim>\<open>self.name(args)\<close>.\<close>

definition invoke ::
  "nat \<Rightarrow> ('a, 's) class_dict \<Rightarrow> string \<Rightarrow> 'a \<Rightarrow> 's \<Rightarrow> (tf_error + 's) option" where
  "invoke n self name a s = exec_code n self (Call name (\<lambda>x. x)) a s"


text \<open>
  A base class on which the lookup is evaluated below: a dense update that prepares and
  then subtracts the gradient, the canonical sparse update, and a sparse update that
  calls \<^verbatim>\<open>self._apply_sparse_shared\<close>.
\<close>

definition base_example :: "(sparse_args, opt_state) class_dict" where
  "base_example =
     [''__doc__'' \<mapsto> Data ''base'',
      ''_prepare'' \<mapsto> Method (Prim (\<lambda>a s. Inr s)),
      ''_apply_dense'' \<mapsto>
        Method (Seq (Call ''_prepare'' (\<lambda>x. x))
                  (Prim (\<lambda>(h, grad, indices, sc) s.
                     case assign_sub (var s) grad of
                       Inl e \<Rightarrow> Inl e | Inr x \<Rightarrow> Inr (s\<lparr>var := x\<rparr>)))),
      ''_apply_sparse_shared'' \<mapsto>
        Method (Prim (\<lambda>(h, grad, indices, sc) s.
                  adam_reference_apply_sparse_shared h s grad indices sc)),
      ''_apply_sparse'' \<mapsto> Method (Call ''_apply_sparse_shared'' (\<lambda>x. x))]"

subsection \<open>The ops of one update and the orders they may run in\<close>

text \<open>
  In graph mode the method builds ops, and the framework runs each op once, after the ops
  it takes an input from. The ops that touch a variable are listed here with their
  inputs as the source gives them: a data input where an op consumes another's output, a
  control input from \<^verbatim>\<open>ops.control_dependencies\<close>. The arithmetic without state
  (\<^verbatim>\<open>grad * (1 - beta1_t)\<close>, the square root, the quotient) is part of the op that
  consumes it.
\<close>

datatype op_node =
    Mul_m | Assign_m | Scatter_add_m | Gather_m
  | Mul_v | Assign_v | Scatter_add_v | Gather_v
  | Scatter_add_var

fun inputs :: "op_node \<Rightarrow> op_node list" where
  "inputs Mul_m = []"
| "inputs Assign_m = [Mul_m]"
| "inputs Scatter_add_m = [Assign_m]"
| "inputs Gather_m = [Scatter_add_m]"
| "inputs Mul_v = []"
| "inputs Assign_v = [Mul_v]"
| "inputs Scatter_add_v = [Assign_v]"
| "inputs Gather_v = [Scatter_add_v]"
| "inputs Scatter_add_var = [Gather_m, Gather_v]"

definition all_ops :: "op_node list" where
  "all_ops = [Mul_m, Assign_m, Scatter_add_m, Gather_m,
              Mul_v, Assign_v, Scatter_add_v, Gather_v, Scatter_add_var]"

text \<open>
  A schedule is an order of execution: no op runs twice, and each runs after its inputs.
  The first argument lists the ops that have run.
\<close>

fun in_order :: "op_node list \<Rightarrow> op_node list \<Rightarrow> bool" where
  "in_order done_ops [] = True"
| "in_order done_ops (a # sch) =
     (a \<notin> set done_ops \<and> list_all (\<lambda>b. b \<in> set done_ops) (inputs a)
      \<and> in_order (a # done_ops) sch)"

definition valid_schedule :: "op_node list \<Rightarrow> bool" where
  "valid_schedule sch = (in_order [] sch \<and> list_all (\<lambda>a. a \<in> set sch) all_ops)"

text \<open>\<open>before sch a b\<close>: both ops run, and \<open>a\<close> has run when \<open>b\<close> starts.\<close>

definition before :: "op_node list \<Rightarrow> op_node \<Rightarrow> op_node \<Rightarrow> bool" where
  "before sch a b = (b \<in> set sch \<and> a \<in> set (takeWhile (\<lambda>c. c \<noteq> b) sch))"

text \<open>
  The variables, and the outputs of the ops that have run. An op whose input has not been
  computed cannot run (\<open>Input_missing\<close>); no schedule asks for that.
\<close>

record exec_state =
  vars :: opt_state
  out_mul_m :: "tensor option"
  out_mul_v :: "tensor option"
  out_gather_m :: "tensor option"
  out_gather_v :: "tensor option"

definition init_exec :: "opt_state \<Rightarrow> exec_state" where
  "init_exec s = \<lparr>vars = s, out_mul_m = None, out_mul_v = None,
                  out_gather_m = None, out_gather_v = None\<rparr>"

fun exec_op ::
  "hyper \<Rightarrow> tensor \<Rightarrow> int list \<Rightarrow> op_node \<Rightarrow> exec_state \<Rightarrow> tf_error + exec_state" where
  "exec_op h grad indices Mul_m st =
     Inr (st\<lparr>out_mul_m := Some (map (\<lambda>x. x * beta1_t h) (m (vars st)))\<rparr>)"
| "exec_op h grad indices Assign_m st =
     (case out_mul_m st of None \<Rightarrow> Inl Input_missing | Some val \<Rightarrow>
     (case assign (m (vars st)) val of Inl e \<Rightarrow> Inl e
      | Inr m0 \<Rightarrow> Inr (st\<lparr>vars := (vars st)\<lparr>m := m0\<rparr>\<rparr>)))"
| "exec_op h grad indices Scatter_add_m st =
     (case scatter_add (m (vars st)) indices (map (\<lambda>g. g * (1 - beta1_t h)) grad) of
        Inl e \<Rightarrow> Inl e
      | Inr m_t \<Rightarrow> Inr (st\<lparr>vars := (vars st)\<lparr>m := m_t\<rparr>\<rparr>))"
| "exec_op h grad indices Gather_m st =
     (case gather (m (vars st)) indices of Inl e \<Rightarrow> Inl e
      | Inr gather_m_t \<Rightarrow> Inr (st\<lparr>out_gather_m := Some gather_m_t\<rparr>))"
| "exec_op h grad indices Mul_v st =
     Inr (st\<lparr>out_mul_v := Some (map (\<lambda>x. x * beta2_t h) (v (vars st)))\<rparr>)"
| "exec_op h grad indices Assign_v st =
     (case out_mul_v st of None \<Rightarrow> Inl Input_missing | Some val \<Rightarrow>
     (case assign (v (vars st)) val of Inl e \<Rightarrow> Inl e
      | Inr v0 \<Rightarrow> Inr (st\<lparr>vars := (vars st)\<lparr>v := v0\<rparr>\<rparr>)))"
| "exec_op h grad indices Scatter_add_v st =
     (case scatter_add (v (vars st)) indices (map (\<lambda>g. (g * g) * (1 - beta2_t h)) grad) of
        Inl e \<Rightarrow> Inl e
      | Inr v_t \<Rightarrow> Inr (st\<lparr>vars := (vars st)\<lparr>v := v_t\<rparr>\<rparr>))"
| "exec_op h grad indices Gather_v st =
     (case gather (v (vars st)) indices of Inl e \<Rightarrow> Inl e
      | Inr gather_v_t \<Rightarrow> Inr (st\<lparr>out_gather_v := Some gather_v_t\<rparr>))"
| "exec_op h grad indices Scatter_add_var st =
     (case out_gather_m st of None \<Rightarrow> Inl Input_missing | Some gather_m_t \<Rightarrow>
     (case out_gather_v st of None \<Rightarrow> Inl Input_missing | Some gather_v_t \<Rightarrow>
     (case scatter_add (var (vars st)) indices
             (map2 (\<lambda>a b. - lr h * a / (b + epsilon_t h)) gather_m_t (map sqrt gather_v_t)) of
        Inl e \<Rightarrow> Inl e
      | Inr var_upd \<Rightarrow> Inr (st\<lparr>vars := (vars st)\<lparr>var := var_upd\<rparr>\<rparr>))))"

fun run ::
  "hyper \<Rightarrow> tensor \<Rightarrow> int list \<Rightarrow> op_node list \<Rightarrow> exec_state \<Rightarrow> tf_error + exec_state" where
  "run h grad indices [] st = Inr st"
| "run h grad indices (a # sch) st =
     (case exec_op h grad indices a st of Inl e \<Rightarrow> Inl e
      | Inr st' \<Rightarrow> run h grad indices sch st')"

text \<open>
  The update succeeds exactly when the gradient has one slice per index and every index
  lies within the variable and its slots; otherwise the first op that fails reports
  \<open>update_error\<close>.
\<close>

definition update_ok :: "opt_state \<Rightarrow> tensor \<Rightarrow> int list \<Rightarrow> bool" where
  "update_ok s grad indices =
     (length grad = length indices \<and> list_all (index_ok (m s)) indices
      \<and> list_all (index_ok (v s)) indices \<and> list_all (index_ok (var s)) indices)"

definition update_error :: "tensor \<Rightarrow> int list \<Rightarrow> tf_error" where
  "update_error grad indices =
     (if length grad \<noteq> length indices then Shape_mismatch else Index_out_of_range)"

text \<open>A set of ops that holds the inputs of each of its ops.\<close>

definition closed :: "op_node set \<Rightarrow> bool" where
  "closed D = (\<forall>a \<in> D. set (inputs a) \<subseteq> D)"

text \<open>
  The state once the ops \<open>D\<close> have run, \<open>s'\<close> being the result of the update: used to
  follow a schedule op by op.
\<close>

definition state_after ::
  "hyper \<Rightarrow> opt_state \<Rightarrow> opt_state \<Rightarrow> int list \<Rightarrow> op_node set \<Rightarrow> exec_state" where
  "state_after h s s' indices D =
     \<lparr>vars =
        \<lparr>var = (if Scatter_add_var \<in> D then var s' else var s),
         m = (if Scatter_add_m \<in> D then m s'
              else if Assign_m \<in> D then map (\<lambda>x. x * beta1_t h) (m s) else m s),
         v = (if Scatter_add_v \<in> D then v s'
              else if Assign_v \<in> D then map (\<lambda>x. x * beta2_t h) (v s) else v s)\<rparr>,
      out_mul_m = (if Mul_m \<in> D then Some (map (\<lambda>x. x * beta1_t h) (m s)) else None),
      out_mul_v = (if Mul_v \<in> D then Some (map (\<lambda>x. x * beta2_t h) (v s)) else None),
      out_gather_m =
        (if Gather_m \<in> D then Some (map (\<lambda>i. m s' ! nat i) indices) else None),
      out_gather_v =
        (if Gather_v \<in> D then Some (map (\<lambda>i. v s' ! nat i) indices) else None)\<rparr>"

text \<open>What holds of the state once the ops \<open>D\<close> have run, whether or not the update succeeds.\<close>

definition exec_inv ::
  "opt_state \<Rightarrow> tensor \<Rightarrow> int list \<Rightarrow> op_node set \<Rightarrow> exec_state \<Rightarrow> bool" where
  "exec_inv s grad indices D st =
     (length (m (vars st)) = length (m s) \<and> length (v (vars st)) = length (v s)
      \<and> length (var (vars st)) = length (var s)
      \<and> (Mul_m \<in> D \<longrightarrow> (case out_mul_m st of None \<Rightarrow> False | Some t \<Rightarrow> length t = length (m s)))
      \<and> (Mul_v \<in> D \<longrightarrow> (case out_mul_v st of None \<Rightarrow> False | Some t \<Rightarrow> length t = length (v s)))
      \<and> (Scatter_add_m \<in> D \<longrightarrow>
            length grad = length indices \<and> list_all (index_ok (m s)) indices)
      \<and> (Scatter_add_v \<in> D \<longrightarrow>
            length grad = length indices \<and> list_all (index_ok (v s)) indices)
      \<and> (Gather_m \<in> D \<longrightarrow>
            (case out_gather_m st of None \<Rightarrow> False | Some t \<Rightarrow> length t = length indices))
      \<and> (Gather_v \<in> D \<longrightarrow>
            (case out_gather_v st of None \<Rightarrow> False | Some t \<Rightarrow> length t = length indices))
      \<and> (Scatter_add_var \<in> D \<longrightarrow> list_all (index_ok (var s)) indices))"

text \<open>A schedule that interleaves the ops of the two slots.\<close>

definition schedule_example :: "op_node list" where
  "schedule_example = [Mul_v, Mul_m, Assign_m, Assign_v, Scatter_add_v, Scatter_add_m,
                       Gather_v, Gather_m, Scatter_add_var]"

text \<open>An order that is no schedule: the scatter-add into \<open>m\<close> runs before the decay.\<close>

definition unordered_example :: "op_node list" where
  "unordered_example = [Mul_m, Scatter_add_m, Assign_m, Gather_m,
                        Mul_v, Assign_v, Scatter_add_v, Gather_v, Scatter_add_var]"

section \<open>The model functions of the estimators\<close>

text \<open>
  The functions of \<^verbatim>\<open>tf_utils/tf_model_fn.py\<close> build a graph: the tensors they handle
  are symbolic, and a tensor is modelled by the term of the framework calls that build
  it. \<open>Given\<close> stands for a tensor that the caller or the network supplies. Shapes and
  dtypes are not modelled.
\<close>

datatype dtype = Int64

datatype sym =
    Given nat
  | Norm sym int
  | Reduce_mean sym
  | L2_normalize sym int
  | Cast sym dtype
  | Batch_hard_triplet_loss sym sym real bool
  | Argmax sym int
  | Softmax sym
  | Sparse_softmax_cross_entropy sym sym

text \<open>\<^verbatim>\<open>tf.metrics.mean(values)\<close> and \<^verbatim>\<open>tf.metrics.accuracy(labels, predictions)\<close>.\<close>

datatype metric = Metrics_mean sym | Metrics_accuracy sym sym

text \<open>\<^verbatim>\<open>tf.estimator.ModeKeys\<close>.\<close>

datatype ModeKeys = TRAIN | EVAL | PREDICT

text \<open>
  Modelled from the spec: \<^verbatim>\<open>OptimizerType\<close> is declared in \<^verbatim>\<open>project_demo.py\<close>, which is
  missing. The functions name its members \<^verbatim>\<open>sgd\<close> and \<^verbatim>\<open>adam\<close>; \<open>other\<close> stands for
  any further member.
\<close>

datatype OptimizerType = sgd | adam | other nat

datatype optimizer = GradientDescentOptimizer sym | AdamOptimizer sym

text \<open>
  \<^verbatim>\<open>optimizer.minimize(loss, global_step=...)\<close> under
  \<^verbatim>\<open>tf.control_dependencies(update_ops)\<close>: the optimizer, the loss, the global step and the
  control inputs.
\<close>

datatype train_op = Minimize optimizer sym "sym option" "sym list"

text \<open>
  The state of the default graph that the functions read and write: the summaries
  added by \<^verbatim>\<open>tf.summary.scalar\<close>, the collection \<^verbatim>\<open>tf.GraphKeys.UPDATE_OPS\<close>, the
  global step of \<^verbatim>\<open>tf.train.get_global_step()\<close>; and the messages given to
  \<^verbatim>\<open>logger.debug\<close>.
\<close>

record graph =
  summaries :: "(string \<times> sym) list"
  update_ops :: "sym list"
  global_step :: "sym option"
  debug_log :: "sym list list"

definition summary_scalar :: "string \<Rightarrow> sym \<Rightarrow> graph \<Rightarrow> graph" where
  "summary_scalar name tensor g = g\<lparr>summaries := summaries g @ [(name, tensor)]\<rparr>"

definition logger_debug :: "sym list \<Rightarrow> graph \<Rightarrow> graph" where
  "logger_debug msg g = g\<lparr>debug_log := debug_log g @ [msg]\<rparr>"

text \<open>The object \<^verbatim>\<open>params\<close>, of which the functions read \<^verbatim>\<open>params.margin\<close>.\<close>

record params =
  margin :: real

text \<open>\<^verbatim>\<open>tf.estimator.EstimatorSpec\<close>; an argument that is not given is \<open>None\<close>.\<close>

record EstimatorSpec =
  mode :: ModeKeys
  predictions :: "(string \<rightharpoonup> sym) option"
  loss :: "sym option"
  train_op :: "train_op option"
  eval_metric_ops :: "(string \<rightharpoonup> metric) option"

type_synonym features = "string \<rightharpoonup> sym"

text \<open>
  The argument \<^verbatim>\<open>network(scope_name, features, params, is_training)\<close>: it returns the
  output tensor (the end points are not read) and adds to the graph.
\<close>

type_synonym network = "string \<Rightarrow> features \<Rightarrow> params \<Rightarrow> bool \<Rightarrow> graph \<Rightarrow> sym \<times> graph"

text \<open>\<^verbatim>\<open>features[key]\<close> raises \<^verbatim>\<open>KeyError\<close> on a missing key.\<close>

definition getitem :: "features \<Rightarrow> string \<Rightarrow> tf_error + sym" where
  "getitem fs key = (case fs key of None \<Rightarrow> Inl (Key_error key) | Some t \<Rightarrow> Inr t)"

text \<open>\<^verbatim>\<open>tf.cast(x, dtype)\<close> refuses \<^verbatim>\<open>None\<close>.\<close>

definition tf_cast :: "sym option \<Rightarrow> dtype \<Rightarrow> tf_error + sym" where
  "tf_cast x d = (case x of None \<Rightarrow> Inl None_value | Some t \<Rightarrow> Inr (Cast t d))"

text \<open>\<^verbatim>\<open>tf.losses.sparse_softmax_cross_entropy(labels, logits)\<close> refuses \<^verbatim>\<open>None\<close> labels.\<close>

definition sparse_softmax_cross_entropy :: "sym option \<Rightarrow> sym \<Rightarrow> tf_error + sym" where
  "sparse_softmax_cross_entropy labels logits =
     (case labels of None \<Rightarrow> Inl None_value
      | Some l \<Rightarrow> Inr (Sparse_softmax_cross_entropy l logits))"

text \<open>
  \<^verbatim>\<open>tf_triplet_loss_model_fn(...)\<close> returns the closure \<^verbatim>\<open>model_func\<close>; the arguments of
  the factory come first, then those of \<^verbatim>\<open>model_func\<close>, then the graph.
\<close>

definition tf_triplet_loss_model_fn ::
  "network \<Rightarrow> string \<Rightarrow> string \<Rightarrow> string \<Rightarrow> (unit \<Rightarrow> sym) \<Rightarrow> OptimizerType \<Rightarrow> bool \<Rightarrow>
   features \<Rightarrow> sym option \<Rightarrow> ModeKeys \<Rightarrow> params \<Rightarrow> graph \<Rightarrow>
   tf_error + (EstimatorSpec \<times> graph)" where
  "tf_triplet_loss_model_fn network scope_name features_embedding_key features_filename_key
       get_learning_rate_func optimizer_type use_l2_normalize
       features labels md ps g0 =
     (let (embeddings0, g1) =
            (if md = TRAIN then network scope_name features ps True g0
             else network scope_name features ps False g0);
          embedding_mean_norm = Reduce_mean (Norm embeddings0 1);
          g2 = summary_scalar ''embedding_mean_norm'' embedding_mean_norm g1;
          embeddings =
            (if use_l2_normalize then L2_normalize embeddings0 0 else embeddings0)
      in
      if md = PREDICT then
        (case getitem features features_filename_key of
           Inl e \<Rightarrow> Inl e
         | Inr filename \<Rightarrow>
             Inr (\<lparr>mode = md,
                   predictions = Some [features_embedding_key \<mapsto> embeddings,
                                       features_filename_key \<mapsto> filename],
                   loss = None, train_op = None, eval_metric_ops = None\<rparr>, g2))
      else
        (case tf_cast labels Int64 of
           Inl e \<Rightarrow> Inl e
         | Inr labels' \<Rightarrow>
            (let the_loss = Batch_hard_triplet_loss labels' embeddings (margin ps) False;
                 metric_ops = [''embedding_mean_norm'' \<mapsto> Metrics_mean embedding_mean_norm]
             in
             if md = EVAL then
               Inr (\<lparr>mode = md, predictions = None, loss = Some the_loss,
                     train_op = None, eval_metric_ops = Some metric_ops\<rparr>, g2)
             else
               (let g3 = summary_scalar ''loss'' the_loss g2;
                    opt = (if optimizer_type = sgd
                           then GradientDescentOptimizer (get_learning_rate_func ())
                           else AdamOptimizer (get_learning_rate_func ()));
                    step = global_step g3;
                    g4 = logger_debug (update_ops g3) g3;
                    the_train_op = Minimize opt the_loss step (update_ops g4)
                in
                Inr (\<lparr>mode = md, predictions = None, loss = Some the_loss,
                      train_op = Some the_train_op, eval_metric_ops = None\<rparr>, g4)))))"

definition tf_softmax_model_fn ::
  "network \<Rightarrow> string \<Rightarrow> string \<Rightarrow> (unit \<Rightarrow> sym) \<Rightarrow> OptimizerType \<Rightarrow>
   features \<Rightarrow> sym option \<Rightarrow> ModeKeys \<Rightarrow> params \<Rightarrow> graph \<Rightarrow>
   tf_error + (EstimatorSpec \<times> graph)" where
  "tf_softmax_model_fn network scope_name features_filename_key
       get_learning_rate_func optimizer_type
       features labels md ps g0 =
     (let (logits, g1) =
            (if md = TRAIN then network scope_name features ps True g0
             else network scope_name features ps False g0);
          predicted_classes = Argmax logits 1
      in
      if md = PREDICT then
        (case getitem features features_filename_key of
           Inl e \<Rightarrow> Inl e
         | Inr filename \<Rightarrow>
             Inr (\<lparr>mode = md,
                   predictions = Some [''class'' \<mapsto> predicted_classes,
                                       ''prob'' \<mapsto> Softmax logits,
                                       ''filename'' \<mapsto> filename],
                   loss = None, train_op = None, eval_metric_ops = None\<rparr>, g1))
      else
        (case sparse_softmax_cross_entropy labels logits of
           Inl e \<Rightarrow> Inl e
         | Inr the_loss \<Rightarrow>
             if md = TRAIN then
               (let g2 = summary_scalar ''loss'' the_loss g1;
                    opt = (if optimizer_type = sgd
                           then GradientDescentOptimizer (get_learning_rate_func ())
                           else AdamOptimizer (get_learning_rate_func ()));
                    g3 = logger_debug (update_ops g2) g2;
                    all_train_op = Minimize opt the_loss (global_step g3) (update_ops g3)
                in
                Inr (\<lparr>mode = md, predictions = None, loss = Some the_loss,
                      train_op = Some all_train_op, eval_metric_ops = None\<rparr>, g3))
             else
               (case labels of
                  None \<Rightarrow> Inl None_value
                | Some l \<Rightarrow>
                    Inr (\<lparr>mode = md, predictions = None, loss = Some the_loss,
                          train_op = None,
                          eval_metric_ops =
                            Some [''accuracy'' \<mapsto> Metrics_accuracy l predicted_classes]\<rparr>,
                         g1))))"

text \<open>What a result holds: the specification and the graph, when the call returns.\<close>

definition spec_of :: "tf_error + (EstimatorSpec \<times> graph) \<Rightarrow> EstimatorSpec option" where
  "spec_of r = (case r of Inl e \<Rightarrow> None | Inr (spec, g) \<Rightarrow> Some spec)"

definition graph_of :: "tf_error + (EstimatorSpec \<times> graph) \<Rightarrow> graph option" where
  "graph_of r = (case r of Inl e \<Rightarrow> None | Inr (spec, g) \<Rightarrow> Some g)"


text \<open>The optimizer that built a train op.\<close>

fun optimizer_of :: "train_op \<Rightarrow> optimizer" where
  "optimizer_of (Minimize opt the_loss step deps) = opt"

text \<open>Arguments on which the model functions are evaluated below.\<close>

definition network_example :: network where
  "network_example scope_name fs ps is_training g =
     (Given (if is_training then 1 else 0), g\<lparr>update_ops := update_ops g @ [Given 2]\<rparr>)"

definition features_example :: features where
  "features_example = [''image'' \<mapsto> Given 3, ''filename'' \<mapsto> Given 4]"

definition graph_example :: graph where
  "graph_example = \<lparr>summaries = [], update_ops = [], global_step = Some (Given 5),
                     debug_log = []\<rparr>"

definition params_example :: params where
  "params_example = \<lparr>margin = 1/2\<rparr>"

section \<open>Properties of the primitives\<close>

lemma length_scatter_add_loop: "length (scatter_add_loop x ius) = length x"
  by (induction x ius rule: scatter_add_loop.induct) simp_all

lemma scatter_add_loop_untouched:
  "int j \<notin> fst ` set ius \<Longrightarrow> \<forall>p \<in> set ius. 0 \<le> fst p \<Longrightarrow>
   scatter_add_loop x ius ! j = x ! j"
proof (induction x ius rule: scatter_add_loop.induct)
  case (1 x)
  then show ?case by simp
next
  case (2 x i u ius)
  from 2(2,3) have "nat i \<noteq> j" by auto
  with 2 show ?case by simp
qed

lemma scatter_add_length:
  "scatter_add x indices updates = Inr y \<Longrightarrow> length y = length x"
  by (auto simp: scatter_add_def length_scatter_add_loop split: if_splits)

lemma scatter_add_untouched:
  assumes "scatter_add x indices updates = Inr y" and "int j \<notin> set indices"
  shows "y ! j = x ! j"
proof -
  from assms(1) have len: "length updates = length indices"
    and ok: "list_all (index_ok x) indices"
    and y: "y = scatter_add_loop x (zip indices updates)"
    by (auto simp: scatter_add_def split: if_splits)
  have "fst ` set (zip indices updates) \<subseteq> set indices"
    by (auto dest: set_zip_leftD)
  with assms(2) have a: "int j \<notin> fst ` set (zip indices updates)" by blast
  have b: "\<forall>p \<in> set (zip indices updates). 0 \<le> fst p"
    using ok by (auto simp: list_all_iff index_ok_def dest: set_zip_leftD)
  show ?thesis unfolding y by (rule scatter_add_loop_untouched [OF a b])
qed

lemma scatter_add_loop_at:
  "distinct (map fst ius) \<Longrightarrow> (i, u) \<in> set ius \<Longrightarrow> \<forall>p \<in> set ius. 0 \<le> fst p \<Longrightarrow>
   nat i < length x \<Longrightarrow> scatter_add_loop x ius ! nat i = x ! nat i + u"
proof (induction x ius rule: scatter_add_loop.induct)
  case (1 x)
  then show ?case by simp
next
  case (2 x j w ius)
  show ?case
  proof (cases "(i, u) = (j, w)")
    case True
    from 2(2) True have "i \<notin> fst ` set ius" by (auto simp: image_iff)
    moreover from 2(4) True have "0 \<le> i" by simp
    ultimately have a: "int (nat i) \<notin> fst ` set ius" by simp
    have b: "\<forall>p \<in> set ius. 0 \<le> fst p" using 2(4) by simp
    have "scatter_add_loop (x[nat i := x ! nat i + u]) ius ! nat i
          = (x[nat i := x ! nat i + u]) ! nat i"
      by (rule scatter_add_loop_untouched [OF a b])
    with True 2(5) show ?thesis by simp
  next
    case False
    with 2(3) have mem: "(i, u) \<in> set ius" by auto
    with 2(2) have "i \<noteq> j" by (force simp: image_iff)
    moreover from 2(4) mem have "0 \<le> i" "0 \<le> j" by auto
    ultimately have ne: "nat i \<noteq> nat j" by simp
    have "scatter_add_loop (x[nat j := x ! nat j + w]) ius ! nat i
          = (x[nat j := x ! nat j + w]) ! nat i + u"
      using 2(2,4,5) mem by (intro 2(1)) simp_all
    with ne show ?thesis by simp
  qed
qed

lemma scatter_add_at:
  assumes "scatter_add x indices updates = Inr y" and "distinct indices"
    and "k < length indices"
  shows "y ! nat (indices ! k) = x ! nat (indices ! k) + updates ! k"
proof -
  from assms(1) have len: "length updates = length indices"
    and ok: "list_all (index_ok x) indices"
    and y: "y = scatter_add_loop x (zip indices updates)"
    by (auto simp: scatter_add_def split: if_splits)
  have d: "distinct (map fst (zip indices updates))"
    using assms(2) len by simp
  have mem: "(indices ! k, updates ! k) \<in> set (zip indices updates)"
    using assms(3) len by (auto simp: set_zip)
  have nn: "\<forall>p \<in> set (zip indices updates). 0 \<le> fst p"
    using ok by (auto simp: list_all_iff index_ok_def dest: set_zip_leftD)
  have "index_ok x (indices ! k)"
    using ok assms(3) by (simp add: list_all_length)
  then have lt: "nat (indices ! k) < length x"
    unfolding index_ok_def by linarith
  show ?thesis unfolding y by (rule scatter_add_loop_at [OF d mem nn lt])
qed

lemma scatter_add_Inr:
  "scatter_add x indices updates = Inr y \<Longrightarrow>
   length updates = length indices \<and> list_all (index_ok x) indices"
  by (auto simp: scatter_add_def split: if_splits)

lemma apply_sparse_shared_Inr:
  assumes "apply_sparse_shared h s grad indices scatter_add = Inr s'"
  shows "scatter_add (map (\<lambda>x. x * beta1_t h) (m s)) indices
           (map (\<lambda>g. g * (1 - beta1_t h)) grad) = Inr (m s')"
    and "scatter_add (map (\<lambda>x. x * beta2_t h) (v s)) indices
           (map (\<lambda>g. (g * g) * (1 - beta2_t h)) grad) = Inr (v s')"
    and "scatter_add (var s) indices
           (map2 (\<lambda>a b. - lr h * a / (b + epsilon_t h))
              (map (\<lambda>i. m s' ! nat i) indices)
              (map sqrt (map (\<lambda>i. v s' ! nat i) indices))) = Inr (var s')"
  using assms
  by (auto simp: apply_sparse_shared_def assign_def gather_def Let_def
           split: sum.splits if_splits)

lemma index_ok_length: "length x = length y \<Longrightarrow> index_ok x = index_ok y"
  by (rule ext) (simp add: index_ok_def)

lemma index_ok_nat: "index_ok x i \<Longrightarrow> nat i < length x"
  unfolding index_ok_def by linarith

lemma lr_example: "lr hyper_example = 1"
  by (simp add: lr_def hyper_example_def real_sqrt_divide)

lemma apply_sparse_shared_example:
  "apply_sparse_shared hyper_example state_example [4] [0] scatter_add
     = Inr \<lparr>var = [1/3, 2], m = [2, 1/2], v = [4, 0]\<rparr>"
  by (simp add: apply_sparse_shared_def state_example_def assign_def scatter_add_def
        gather_def index_ok_def lr_example)
     (simp add: hyper_example_def)

lemma adam_reference_example:
  "adam_reference_apply_sparse_shared hyper_example state_example [4] [0] scatter_add
     = Inr \<lparr>var = [1/3, 3/2], m = [2, 1/2], v = [4, 0]\<rparr>"
  by (simp add: adam_reference_apply_sparse_shared_def state_example_def assign_def
        assign_sub_def scatter_add_def index_ok_def lr_example)
     (simp add: hyper_example_def)

lemma adam_reference_Inr:
  assumes sm: "scatter_add (map (\<lambda>x. x * beta1_t h) (m s)) indices
           (map (\<lambda>g. g * (1 - beta1_t h)) grad) = Inr m_t"
    and sv: "scatter_add (map (\<lambda>x. x * beta2_t h) (v s)) indices
           (map (\<lambda>g. (g * g) * (1 - beta2_t h)) grad) = Inr v_t"
    and slots: "slots_ok s"
  shows "adam_reference_apply_sparse_shared h s grad indices scatter_add =
         Inr \<lparr>var = map2 (\<lambda>x d. x - d) (var s)
                      (map2 (\<lambda>a b. lr h * a / (b + epsilon_t h)) m_t (map sqrt v_t)),
              m = m_t, v = v_t\<rparr>"
proof -
  from scatter_add_length [OF sm] scatter_add_length [OF sv] slots
  have "length m_t = length (var s)" "length v_t = length (var s)"
    by (simp_all add: slots_ok_def)
  then show ?thesis
    using sm sv
    by (simp add: adam_reference_apply_sparse_shared_def assign_def assign_sub_def)
qed

section \<open>The frame of the update\<close>

text \<open>
  C3. \<^verbatim>\<open>MaskedAdamOptimizer._apply_sparse_shared\<close> changes the optimized variable only
  at the positions listed in \<^verbatim>\<open>indices\<close>: whenever the update succeeds, the variable
  keeps its shape, and every component whose index is not among the indices has the
  value it had before.
\<close>

theorem apply_sparse_shared_frame:
  assumes "apply_sparse_shared h s grad indices scatter_add = Inr s'"
    and "j < length (var s)" and "int j \<notin> set indices"
  shows "length (var s') = length (var s) \<and> var s' ! j = var s ! j"
proof -
  from apply_sparse_shared_Inr(3) [OF assms(1)] obtain upd where
    "scatter_add (var s) indices upd = Inr (var s')"
    by blast
  then show ?thesis
    using assms(3) by (simp add: scatter_add_length scatter_add_untouched)
qed

theorem apply_sparse_shared_frame_witness:
  "apply_sparse_shared hyper_example state_example [4] [0] scatter_add
     = Inr \<lparr>var = [1/3, 2], m = [2, 1/2], v = [4, 0]\<rparr>
   \<and> (1::nat) < length (var state_example) \<and> int 1 \<notin> set [0]
   \<and> length [1/3, 2::real] = length (var state_example)
   \<and> [1/3, 2::real] ! 1 = var state_example ! 1"
proof -
  have a: "(1::nat) < length (var state_example)" by (simp add: state_example_def)
  have b: "int 1 \<notin> set [0]" by simp
  from apply_sparse_shared_frame [OF apply_sparse_shared_example a b]
  show ?thesis using apply_sparse_shared_example by (simp add: state_example_def)
qed

section \<open>The moment accumulators and the step\<close>



section \<open>The update against the canonical sparse update of Adam\<close>

text \<open>
  C1, as the claim states it, fails: the two updates do not compute the same result. On
  the example the canonical update moves the component of the variable at index 1, which
  is not among the indices, and the masked update leaves it.
\<close>

theorem masked_adam_versus_reference_counterexample:
  "apply_sparse_shared hyper_example state_example [4] [0] scatter_add
     = Inr \<lparr>var = [1/3, 2], m = [2, 1/2], v = [4, 0]\<rparr>
   \<and> adam_reference_apply_sparse_shared hyper_example state_example [4] [0] scatter_add
     = Inr \<lparr>var = [1/3, 3/2], m = [2, 1/2], v = [4, 0]\<rparr>
   \<and> apply_sparse_shared hyper_example state_example [4] [0] scatter_add
     \<noteq> adam_reference_apply_sparse_shared hyper_example state_example [4] [0] scatter_add"
  by (simp add: apply_sparse_shared_example adam_reference_example)

text \<open>
  C1, amended. Whenever the masked update succeeds on a gradient given at pairwise
  distinct indices and slots of the variable's shape, the canonical update succeeds as
  well, and the two compute the same slots \<open>m\<close> and \<open>v\<close> (the decay comes before the
  scatter-add in both) and the same components of the variable at the indices. They
  differ in the variable away from the indices: the masked update leaves a component
  there as it was, the canonical update subtracts
  \<open>lr * m_new[j] / (sqrt (v_new[j]) + epsilon)\<close> from it.
\<close>

theorem masked_adam_versus_reference:
  assumes ok: "apply_sparse_shared h s grad indices scatter_add = Inr s'"
    and slots: "slots_ok s" and dist: "distinct indices"
  shows "\<exists>r. adam_reference_apply_sparse_shared h s grad indices scatter_add = Inr r
           \<and> m r = m s' \<and> v r = v s'
           \<and> (\<forall>k < length indices.
                 var r ! nat (indices ! k) = var s' ! nat (indices ! k))
           \<and> (\<forall>j < length (var s). int j \<notin> set indices \<longrightarrow>
                 var s' ! j = var s ! j
               \<and> var r ! j = var s ! j - lr h * m s' ! j / (sqrt (v s' ! j) + epsilon_t h))"
proof -
  note sm = apply_sparse_shared_Inr(1) [OF ok]
  note sv = apply_sparse_shared_Inr(2) [OF ok]
  note sx = apply_sparse_shared_Inr(3) [OF ok]
  let ?r = "\<lparr>var = map2 (\<lambda>x d. x - d) (var s)
                      (map2 (\<lambda>a b. lr h * a / (b + epsilon_t h)) (m s') (map sqrt (v s'))),
              m = m s', v = v s'\<rparr>"
  have r: "adam_reference_apply_sparse_shared h s grad indices scatter_add = Inr ?r"
    by (rule adam_reference_Inr [OF sm sv slots])
  from scatter_add_length [OF sm] scatter_add_length [OF sv] slots
  have lm: "length (m s') = length (var s)" and lv: "length (v s') = length (var s)"
    by (simp_all add: slots_ok_def)
  have dense: "var ?r ! j = var s ! j - lr h * m s' ! j / (sqrt (v s' ! j) + epsilon_t h)"
    if "j < length (var s)" for j
    using that lm lv by simp
  have okx: "list_all (index_ok (var s)) indices"
    using scatter_add_Inr [OF sx] by simp
  have at: "var ?r ! nat (indices ! k) = var s' ! nat (indices ! k)"
    if k: "k < length indices" for k
  proof -
    from okx k have i: "nat (indices ! k) < length (var s)"
      by (simp add: list_all_length index_ok_nat)
    show ?thesis
      using scatter_add_at [OF sx dist k] dense [OF i] k by simp
  qed
  have out: "var s' ! j = var s ! j" if "int j \<notin> set indices" for j
    by (rule scatter_add_untouched [OF sx that])
  show ?thesis
    using r at out dense by (intro exI [of _ ?r]) simp
qed

theorem masked_adam_versus_reference_witness:
  "apply_sparse_shared hyper_example state_example [4] [0] scatter_add
     = Inr \<lparr>var = [1/3, 2], m = [2, 1/2], v = [4, 0]\<rparr>
   \<and> slots_ok state_example \<and> distinct [0::int]
   \<and> (\<exists>r. adam_reference_apply_sparse_shared hyper_example state_example [4] [0]
              scatter_add = Inr r
          \<and> m r = [2, 1/2] \<and> v r = [4, 0] \<and> var r ! 0 = 1/3
          \<and> var r ! 1 = 2 - lr hyper_example * (1/2) / (sqrt 0 + epsilon_t hyper_example))"
proof -
  have a: "slots_ok state_example" by (simp add: slots_ok_def state_example_def)
  have b: "distinct [0::int]" by simp
  from masked_adam_versus_reference [OF apply_sparse_shared_example a b]
  obtain r where r: "adam_reference_apply_sparse_shared hyper_example state_example [4] [0]
        scatter_add = Inr r"
    and mv: "m r = [2, 1/2]" "v r = [4, 0]"
    and at: "\<forall>k < length [0::int]. var r ! nat ([0] ! k) = [1/3, 2::real] ! nat ([0] ! k)"
    and out: "\<forall>j < length (var state_example). int j \<notin> set [0] \<longrightarrow>
                var r ! j = var state_example ! j
                  - lr hyper_example * [2, 1/2::real] ! j
                    / (sqrt ([4, 0::real] ! j) + epsilon_t hyper_example)"
    by auto
  from at have "var r ! 0 = 1/3" by simp
  moreover from out have "var r ! 1 = 2 - lr hyper_example * (1/2)
      / (sqrt 0 + epsilon_t hyper_example)"
    by (simp add: state_example_def)
  ultimately show ?thesis
    using r mv a apply_sparse_shared_example by (intro conjI exI [of _ r]) simp_all
qed

section \<open>The order of the ops\<close>

lemma closed_insert: "closed D \<Longrightarrow> set (inputs a) \<subseteq> D \<Longrightarrow> closed (insert a D)"
  by (auto simp: closed_def)

lemma closedD:
  assumes "closed D"
  shows "Assign_m \<in> D \<Longrightarrow> Mul_m \<in> D" "Scatter_add_m \<in> D \<Longrightarrow> Assign_m \<in> D"
    "Gather_m \<in> D \<Longrightarrow> Scatter_add_m \<in> D"
    "Assign_v \<in> D \<Longrightarrow> Mul_v \<in> D" "Scatter_add_v \<in> D \<Longrightarrow> Assign_v \<in> D"
    "Gather_v \<in> D \<Longrightarrow> Scatter_add_v \<in> D"
    "Scatter_add_var \<in> D \<Longrightarrow> Gather_m \<in> D" "Scatter_add_var \<in> D \<Longrightarrow> Gather_v \<in> D"
  using assms unfolding closed_def by force+

lemma gather_after_scatter_add:
  "scatter_add x indices updates = Inr y \<Longrightarrow>
   gather y indices = Inr (map (\<lambda>i. y ! nat i) indices)"
  using scatter_add_length [of x indices updates y] scatter_add_Inr [of x indices updates y]
  by (simp add: gather_def index_ok_length [of y x])

lemma exec_op_state_after:
  assumes ok: "apply_sparse_shared h s grad indices scatter_add = Inr s'"
    and new: "a \<notin> D" and inp: "set (inputs a) \<subseteq> D" and cl: "closed D"
  shows "exec_op h grad indices a (state_after h s s' indices D) =
         Inr (state_after h s s' indices (insert a D))"
proof -
  note sm = apply_sparse_shared_Inr(1) [OF ok]
  note sv = apply_sparse_shared_Inr(2) [OF ok]
  note sx = apply_sparse_shared_Inr(3) [OF ok]
  note gm = gather_after_scatter_add [OF sm]
  note gv = gather_after_scatter_add [OF sv]
  note c = closedD [OF cl]
  show ?thesis
  proof (cases a)
    case Mul_m
    with new c show ?thesis by (auto simp: state_after_def)
  next
    case Assign_m
    with new inp c show ?thesis by (auto simp: state_after_def assign_def)
  next
    case Scatter_add_m
    with new inp c sm show ?thesis by (auto simp: state_after_def)
  next
    case Gather_m
    with new inp c gm show ?thesis by (auto simp: state_after_def)
  next
    case Mul_v
    with new c show ?thesis by (auto simp: state_after_def)
  next
    case Assign_v
    with new inp c show ?thesis by (auto simp: state_after_def assign_def)
  next
    case Scatter_add_v
    with new inp c sv show ?thesis by (auto simp: state_after_def)
  next
    case Gather_v
    with new inp c gv show ?thesis by (auto simp: state_after_def)
  next
    case Scatter_add_var
    with new inp c sx show ?thesis by (auto simp: state_after_def)
  qed
qed

lemma run_state_after:
  assumes ok: "apply_sparse_shared h s grad indices scatter_add = Inr s'"
  shows "in_order done_ops sch \<Longrightarrow> closed (set done_ops) \<Longrightarrow>
         run h grad indices sch (state_after h s s' indices (set done_ops)) =
         Inr (state_after h s s' indices (set done_ops \<union> set sch))"
proof (induction sch arbitrary: done_ops)
  case Nil
  then show ?case by simp
next
  case (Cons a sch)
  from Cons.prems have new: "a \<notin> set done_ops"
    and inp: "set (inputs a) \<subseteq> set done_ops"
    and rest: "in_order (a # done_ops) sch"
    by (auto simp: list_all_iff)
  have cl: "closed (set (a # done_ops))"
    using closed_insert [OF Cons.prems(2) inp] by simp
  from Cons.IH [OF rest cl] exec_op_state_after [OF ok new inp Cons.prems(2)]
  show ?case by simp
qed

lemma exec_inv_init: "exec_inv s grad indices {} (init_exec s)"
  by (simp add: exec_inv_def init_exec_def)

lemma exec_op_inv:
  assumes inv: "exec_inv s grad indices D st" and inp: "set (inputs a) \<subseteq> D"
    and cl: "closed D"
  shows "case exec_op h grad indices a st of
           Inl e \<Rightarrow> e = update_error grad indices \<and> \<not> update_ok s grad indices
         | Inr st' \<Rightarrow> exec_inv s grad indices (insert a D) st'"
proof -
  note c = closedD [OF cl]
  have im: "index_ok (m (vars st)) = index_ok (m s)"
    and iv: "index_ok (v (vars st)) = index_ok (v s)"
    and ix: "index_ok (var (vars st)) = index_ok (var s)"
    using inv by (auto simp: exec_inv_def intro: index_ok_length)
  show ?thesis
  proof (cases a)
    case Mul_m
    with inv show ?thesis by (auto simp: exec_inv_def split: option.splits)
  next
    case Assign_m
    with inv inp show ?thesis by (auto simp: exec_inv_def assign_def split: option.splits)
  next
    case Scatter_add_m
    with inv im show ?thesis
      by (auto simp: exec_inv_def scatter_add_def length_scatter_add_loop
            update_error_def update_ok_def split: option.splits)
  next
    case Gather_m
    with inv inp im c show ?thesis by (auto simp: exec_inv_def gather_def split: option.splits)
  next
    case Mul_v
    with inv show ?thesis by (auto simp: exec_inv_def split: option.splits)
  next
    case Assign_v
    with inv inp show ?thesis by (auto simp: exec_inv_def assign_def split: option.splits)
  next
    case Scatter_add_v
    with inv iv show ?thesis
      by (auto simp: exec_inv_def scatter_add_def length_scatter_add_loop
            update_error_def update_ok_def split: option.splits)
  next
    case Gather_v
    with inv inp iv c show ?thesis by (auto simp: exec_inv_def gather_def split: option.splits)
  next
    case Scatter_add_var
    with inv inp ix c show ?thesis
      by (auto simp: exec_inv_def scatter_add_def length_scatter_add_loop
            update_error_def update_ok_def split: option.splits)
  qed
qed

lemma run_inv:
  "in_order done_ops sch \<Longrightarrow> closed (set done_ops) \<Longrightarrow>
   exec_inv s grad indices (set done_ops) st \<Longrightarrow>
   (case run h grad indices sch st of
      Inl e \<Rightarrow> e = update_error grad indices \<and> \<not> update_ok s grad indices
    | Inr st' \<Rightarrow> exec_inv s grad indices (set done_ops \<union> set sch) st')"
proof (induction sch arbitrary: done_ops st)
  case Nil
  then show ?case by simp
next
  case (Cons a sch)
  from Cons.prems have inp: "set (inputs a) \<subseteq> set done_ops"
    and rest: "in_order (a # done_ops) sch"
    by (auto simp: list_all_iff)
  have cl: "closed (set (a # done_ops))"
    using closed_insert [OF Cons.prems(2) inp] by simp
  show ?case
  proof (cases "exec_op h grad indices a st")
    case (Inl e)
    with exec_op_inv [OF Cons.prems(3) inp Cons.prems(2), of h] show ?thesis by simp
  next
    case (Inr st')
    with exec_op_inv [OF Cons.prems(3) inp Cons.prems(2), of h]
    have "exec_inv s grad indices (set (a # done_ops)) st'" by simp
    moreover have "set (a # done_ops) \<union> set sch = set done_ops \<union> set (a # sch)"
      by auto
    ultimately have "case run h grad indices sch st' of
        Inl e \<Rightarrow> e = update_error grad indices \<and> \<not> update_ok s grad indices
      | Inr x \<Rightarrow> exec_inv s grad indices (set done_ops \<union> set (a # sch)) x"
      using Cons.IH [OF rest cl, of st'] by metis
    with Inr show ?thesis by simp
  qed
qed

lemma apply_sparse_shared_fails:
  assumes "\<not> update_ok s grad indices"
  shows "apply_sparse_shared h s grad indices scatter_add = Inl (update_error grad indices)"
proof (cases "length grad = length indices")
  case False
  then show ?thesis
    by (simp add: apply_sparse_shared_def assign_def scatter_add_def update_error_def)
next
  case len: True
  have e: "update_error grad indices = Index_out_of_range"
    using len by (simp add: update_error_def)
  have im: "index_ok (map f (m s)) = index_ok (m s)"
    and iv: "index_ok (map f (v s)) = index_ok (v s)" for f
    by (rule index_ok_length, simp)+
  show ?thesis
  proof (cases "list_all (index_ok (m s)) indices")
    case False
    then show ?thesis
      using len by (simp add: apply_sparse_shared_def assign_def scatter_add_def e im)
  next
    case okm: True
    show ?thesis
    proof (cases "list_all (index_ok (v s)) indices")
      case False
      then show ?thesis
        using len okm
        by (simp add: apply_sparse_shared_def assign_def scatter_add_def e im iv)
    next
      case okv: True
      from assms len okm okv have nx: "\<not> list_all (index_ok (var s)) indices"
        by (simp add: update_ok_def)
      have gm: "index_ok (scatter_add_loop (map f (m s)) ius) = index_ok (m s)"
        and gv: "index_ok (scatter_add_loop (map f (v s)) ius) = index_ok (v s)" for f ius
        by (rule index_ok_length, simp add: length_scatter_add_loop)+
      show ?thesis
        using len okm okv nx
        by (simp add: apply_sparse_shared_def assign_def scatter_add_def gather_def e
              im iv gm gv)
    qed
  qed
qed

lemma apply_sparse_shared_succeeds:
  assumes "update_ok s grad indices"
  shows "\<exists>s'. apply_sparse_shared h s grad indices scatter_add = Inr s'"
proof -
  from assms have len: "length grad = length indices"
    and okm: "list_all (index_ok (m s)) indices"
    and okv: "list_all (index_ok (v s)) indices"
    and okx: "list_all (index_ok (var s)) indices"
    by (simp_all add: update_ok_def)
  have im: "index_ok (map f (m s)) = index_ok (m s)"
    and iv: "index_ok (map f (v s)) = index_ok (v s)" for f
    by (rule index_ok_length, simp)+
  have gm: "index_ok (scatter_add_loop (map f (m s)) ius) = index_ok (m s)"
    and gv: "index_ok (scatter_add_loop (map f (v s)) ius) = index_ok (v s)" for f ius
    by (rule index_ok_length, simp add: length_scatter_add_loop)+
  show ?thesis
    using len okm okv okx
    by (simp add: apply_sparse_shared_def assign_def scatter_add_def gather_def
          im iv gm gv Let_def)
qed

lemma in_order_inputs_first:
  "in_order done_ops sch \<Longrightarrow> b \<in> set sch \<Longrightarrow> a \<in> set (inputs b) \<Longrightarrow>
   a \<in> set done_ops \<or> a \<in> set (takeWhile (\<lambda>c. c \<noteq> b) sch)"
proof (induction sch arbitrary: done_ops)
  case Nil
  then show ?case by simp
next
  case (Cons c sch)
  show ?case
  proof (cases "c = b")
    case True
    with Cons.prems show ?thesis by (auto simp: list_all_iff)
  next
    case False
    with Cons.prems have "in_order (c # done_ops) sch" "b \<in> set sch" by auto
    from Cons.IH [OF this Cons.prems(3)] False show ?thesis by auto
  qed
qed

lemma before_input:
  "in_order [] sch \<Longrightarrow> b \<in> set sch \<Longrightarrow> a \<in> set (inputs b) \<Longrightarrow> before sch a b"
  using in_order_inputs_first [of "[]" sch b a] by (simp add: before_def)

lemma before_trans: "before sch a b \<Longrightarrow> before sch b c \<Longrightarrow> before sch a c"
  unfolding before_def
proof (induction sch)
  case Nil
  then show ?case by simp
next
  case (Cons d sch)
  then show ?case by (auto split: if_splits)
qed

lemma valid_schedule_set: "valid_schedule sch \<Longrightarrow> a \<in> set sch"
  by (cases a) (simp_all add: valid_schedule_def all_ops_def)

lemma state_after_empty: "state_after h s s' indices {} = init_exec s"
  by (simp add: state_after_def init_exec_def)

lemma vars_state_after_all:
  "(\<And>a. a \<in> D) \<Longrightarrow> vars (state_after h s s' indices D) = s'"
  by (simp add: state_after_def)

text \<open>
  The control dependency matters: run before the decay, the scatter-add into \<open>m\<close> is
  overwritten by the decay assignment, and the update ends in another state.
\<close>

lemma unordered_example_differs:
  "\<not> valid_schedule unordered_example
   \<and> map_sum id vars
        (run hyper_example [4] [0] unordered_example (init_exec state_example))
     = Inr \<lparr>var = [1, 2], m = [0, 1/2], v = [4, 0]\<rparr>"
  by (simp add: valid_schedule_def unordered_example_def init_exec_def state_example_def
        assign_def scatter_add_def gather_def index_ok_def lr_example)
     (simp add: hyper_example_def)

text \<open>
  C8. In every execution of the ops of \<^verbatim>\<open>MaskedAdamOptimizer._apply_sparse_shared\<close> (every
  order in which each op runs once, after its data and control inputs), the decay
  assignment of each slot has run when the scatter-add into that slot starts, and both
  scatter-adds have run when the gathers and the update of the variable start; and every
  such execution ends as the update in program order does, with the same variables or the
  same error.
\<close>

theorem masked_adam_schedules:
  assumes valid: "valid_schedule sch"
  shows "before sch Assign_m Scatter_add_m \<and> before sch Assign_v Scatter_add_v
       \<and> before sch Scatter_add_m Gather_m \<and> before sch Scatter_add_v Gather_v
       \<and> before sch Scatter_add_m Scatter_add_var
       \<and> before sch Scatter_add_v Scatter_add_var
       \<and> map_sum id vars (run h grad indices sch (init_exec s))
           = apply_sparse_shared h s grad indices scatter_add"
proof -
  from valid have ord: "in_order [] sch" by (simp add: valid_schedule_def)
  note mem = valid_schedule_set [OF valid]
  have am: "before sch Assign_m Scatter_add_m"
    and av: "before sch Assign_v Scatter_add_v"
    and sm: "before sch Scatter_add_m Gather_m"
    and sv: "before sch Scatter_add_v Gather_v"
    and gm: "before sch Gather_m Scatter_add_var"
    and gv: "before sch Gather_v Scatter_add_var"
    by (rule before_input [OF ord mem], simp)+
  have cl: "closed (set [])" by (simp add: closed_def)
  have res: "map_sum id vars (run h grad indices sch (init_exec s))
             = apply_sparse_shared h s grad indices scatter_add"
  proof (cases "update_ok s grad indices")
    case True
    from apply_sparse_shared_succeeds [OF True, of h] obtain s' where
      ok: "apply_sparse_shared h s grad indices scatter_add = Inr s'" ..
    from run_state_after [OF ok ord cl]
    have "run h grad indices sch (init_exec s) = Inr (state_after h s s' indices (set sch))"
      by (simp add: state_after_empty)
    with ok mem show ?thesis by (simp add: vars_state_after_all)
  next
    case False
    have inv: "exec_inv s grad indices (set []) (init_exec s)"
      using exec_inv_init by simp
    show ?thesis
    proof (cases "run h grad indices sch (init_exec s)")
      case (Inl e)
      with run_inv [OF ord cl inv, of h] apply_sparse_shared_fails [OF False, of h]
      show ?thesis by simp
    next
      case (Inr st)
      with run_inv [OF ord cl inv, of h]
      have "exec_inv s grad indices (set sch) st" by simp
      with mem have "update_ok s grad indices"
        by (simp add: exec_inv_def update_ok_def)
      with False show ?thesis by simp
    qed
  qed
  from am av sm sv before_trans [OF sm gm] before_trans [OF sv gv] res
  show ?thesis by simp
qed

theorem masked_adam_schedules_witness:
  "valid_schedule schedule_example
   \<and> before schedule_example Assign_m Scatter_add_m
   \<and> before schedule_example Scatter_add_v Scatter_add_var
   \<and> map_sum id vars (run hyper_example [4] [0] schedule_example (init_exec state_example))
       = Inr \<lparr>var = [1/3, 2], m = [2, 1/2], v = [4, 0]\<rparr>"
proof -
  have a: "valid_schedule schedule_example"
    by (simp add: valid_schedule_def schedule_example_def all_ops_def)
  from masked_adam_schedules [OF a, of hyper_example "[4]" "[0]" state_example]
  show ?thesis using a by (simp add: apply_sparse_shared_example)
qed

section \<open>The class overrides one method\<close>




text \<open>
  An operation on the sparse path is not the same on the two classes: the inherited
  \<^verbatim>\<open>_apply_sparse\<close> of the example calls \<^verbatim>\<open>self._apply_sparse_shared\<close> and reaches the
  masked update on an object of the class, the canonical update on an object of the base
  class.
\<close>

lemma sparse_path_example_differs:
  "invoke 2 (getattr (MaskedAdamOptimizer doc) base_example) ''_apply_sparse''
      (hyper_example, [4], [0], scatter_add) state_example
     = Some (Inr \<lparr>var = [1/3, 2], m = [2, 1/2], v = [4, 0]\<rparr>)
   \<and> invoke 2 base_example ''_apply_sparse''
      (hyper_example, [4], [0], scatter_add) state_example
     = Some (Inr \<lparr>var = [1/3, 3/2], m = [2, 1/2], v = [4, 0]\<rparr>)"
  by (simp add: invoke_def getattr_def MaskedAdamOptimizer_def base_example_def
        numeral_2_eq_2 apply_sparse_shared_example adam_reference_example)



section \<open>The model functions\<close>

lemmas model_fn_defs =
  tf_triplet_loss_model_fn_def tf_softmax_model_fn_def spec_of_def graph_of_def
  getitem_def tf_cast_def sparse_softmax_cross_entropy_def summary_scalar_def
  logger_debug_def Let_def



text \<open>
  C6. In both model functions the optimizer of the train op depends on
  \<^verbatim>\<open>optimizer_type\<close> alone: it is \<^verbatim>\<open>GradientDescentOptimizer\<close> for \<^verbatim>\<open>OptimizerType.sgd\<close>
  and \<^verbatim>\<open>AdamOptimizer\<close> for every other value, built in both cases with the learning
  rate that \<^verbatim>\<open>get_learning_rate_func()\<close> returns.
\<close>

theorem model_fn_optimizer:
  "map_option (map_option optimizer_of \<circ> train_op)
       (spec_of (tf_triplet_loss_model_fn network scope_name
          features_embedding_key features_filename_key get_learning_rate_func optimizer_type
          use_l2_normalize features (Some l) TRAIN ps gr))
     = Some (Some (if optimizer_type = sgd
                   then GradientDescentOptimizer (get_learning_rate_func ())
                   else AdamOptimizer (get_learning_rate_func ())))
   \<and> map_option (map_option optimizer_of \<circ> train_op)
       (spec_of (tf_softmax_model_fn network scope_name
          features_filename_key get_learning_rate_func optimizer_type
          features (Some l) TRAIN ps gr))
     = Some (Some (if optimizer_type = sgd
                   then GradientDescentOptimizer (get_learning_rate_func ())
                   else AdamOptimizer (get_learning_rate_func ())))"
  by (simp add: model_fn_defs split: prod.splits)

theorem model_fn_optimizer_witness:
  "map_option (map_option optimizer_of \<circ> train_op)
       (spec_of (tf_triplet_loss_model_fn network_example ''net''
          ''embedding'' ''filename'' (\<lambda>_. Given 6) sgd False
          features_example (Some (Given 7)) TRAIN params_example graph_example))
     = Some (Some (GradientDescentOptimizer (Given 6)))
   \<and> map_option (map_option optimizer_of \<circ> train_op)
       (spec_of (tf_softmax_model_fn network_example ''net''
          ''filename'' (\<lambda>_. Given 6) (other 0)
          features_example (Some (Given 7)) TRAIN params_example graph_example))
     = Some (Some (AdamOptimizer (Given 6)))"
  using model_fn_optimizer [of network_example "''net''" "''embedding''" "''filename''"
      "\<lambda>_. Given 6" sgd False features_example "Given 7" params_example graph_example]
    model_fn_optimizer [of network_example "''net''" "''embedding''" "''filename''"
      "\<lambda>_. Given 6" "other 0" False features_example "Given 7" params_example graph_example]
  by simp

text \<open>
  C7. In every mode but \<^verbatim>\<open>PREDICT\<close>, the loss of the triplet model function is
  \<^verbatim>\<open>batch_hard_triplet_loss\<close> of the labels cast to \<^verbatim>\<open>int64\<close> and the embeddings, with the
  margin \<^verbatim>\<open>params.margin\<close> and \<^verbatim>\<open>squared=False\<close>; the loss of the softmax model function
  is the sparse softmax cross-entropy of the labels against the logits of the network.
\<close>

theorem model_fn_loss:
  assumes "md \<noteq> PREDICT"
    and "network scope_name features ps (md = TRAIN) gr = (net_out, gr')"
  shows
    "map_option loss (spec_of (tf_triplet_loss_model_fn network scope_name
        features_embedding_key features_filename_key get_learning_rate_func optimizer_type
        use_l2_normalize features (Some l) md ps gr))
       = Some (Some (Batch_hard_triplet_loss (Cast l Int64)
                 (if use_l2_normalize then L2_normalize net_out 0 else net_out)
                 (margin ps) False))
   \<and> map_option loss (spec_of (tf_softmax_model_fn network scope_name
        features_filename_key get_learning_rate_func optimizer_type
        features (Some l) md ps gr))
       = Some (Some (Sparse_softmax_cross_entropy l net_out))"
  using assms by (cases md) (simp_all add: model_fn_defs)

theorem model_fn_loss_witness:
  "EVAL \<noteq> PREDICT
   \<and> network_example ''net'' features_example params_example (EVAL = TRAIN) graph_example
       = (Given 0, graph_example\<lparr>update_ops := [Given 2]\<rparr>)
   \<and> map_option loss (spec_of (tf_triplet_loss_model_fn network_example ''net''
        ''embedding'' ''filename'' (\<lambda>_. Given 6) adam False
        features_example (Some (Given 7)) EVAL params_example graph_example))
       = Some (Some (Batch_hard_triplet_loss (Cast (Given 7) Int64) (Given 0) (1/2) False))
   \<and> map_option loss (spec_of (tf_softmax_model_fn network_example ''net''
        ''filename'' (\<lambda>_. Given 6) adam
        features_example (Some (Given 7)) EVAL params_example graph_example))
       = Some (Some (Sparse_softmax_cross_entropy (Given 7) (Given 0)))"
proof -
  have a: "EVAL \<noteq> PREDICT" by simp
  have b: "network_example ''net'' features_example params_example (EVAL = TRAIN)
      graph_example = (Given 0, graph_example\<lparr>update_ops := [Given 2]\<rparr>)"
    by (simp add: network_example_def graph_example_def)
  from model_fn_loss [where md = EVAL and network = network_example
      and scope_name = "''net''" and features = features_example and ps = params_example
      and gr = graph_example and net_out = "Given 0"
      and gr' = "graph_example\<lparr>update_ops := [Given 2]\<rparr>"
      and features_embedding_key = "''embedding''"
      and features_filename_key = "''filename''"
      and get_learning_rate_func = "\<lambda>_. Given 6" and optimizer_type = adam
      and use_l2_normalize = False and l = "Given 7"]
  show ?thesis using a b by (simp add: params_example_def)
qed

text \<open>
  C9. With \<^verbatim>\<open>use_l2_normalize\<close> set, the triplet model function normalizes the embeddings
  along axis 0, not axis 1. The summary \<^verbatim>\<open>embedding_mean_norm\<close> is taken of the output of
  the network as it is, and the normalized embeddings are what the predictions of mode
  \<^verbatim>\<open>PREDICT\<close> hold and what the triplet loss is given.
\<close>

theorem triplet_l2_normalize:
  assumes "network scope_name features ps False gr = (out_f, gf)"
    and "network scope_name features ps True gr = (out_t, gt)"
    and "features features_filename_key = Some filename"
    and "features_embedding_key \<noteq> features_filename_key"
  shows
    "map_option (\<lambda>spec. map_option (\<lambda>p. p features_embedding_key) (predictions spec))
        (spec_of (tf_triplet_loss_model_fn network scope_name features_embedding_key
          features_filename_key get_learning_rate_func optimizer_type True
          features labels PREDICT ps gr))
       = Some (Some (Some (L2_normalize out_f 0)))
   \<and> map_option loss
        (spec_of (tf_triplet_loss_model_fn network scope_name features_embedding_key
          features_filename_key get_learning_rate_func optimizer_type True
          features (Some l) EVAL ps gr))
       = Some (Some (Batch_hard_triplet_loss (Cast l Int64) (L2_normalize out_f 0)
                  (margin ps) False))
   \<and> map_option loss
        (spec_of (tf_triplet_loss_model_fn network scope_name features_embedding_key
          features_filename_key get_learning_rate_func optimizer_type True
          features (Some l) TRAIN ps gr))
       = Some (Some (Batch_hard_triplet_loss (Cast l Int64) (L2_normalize out_t 0)
                  (margin ps) False))
   \<and> map_option summaries
        (graph_of (tf_triplet_loss_model_fn network scope_name features_embedding_key
          features_filename_key get_learning_rate_func optimizer_type True
          features labels PREDICT ps gr))
       = Some (summaries gf @ [(''embedding_mean_norm'', Reduce_mean (Norm out_f 1))])
   \<and> map_option summaries
        (graph_of (tf_triplet_loss_model_fn network scope_name features_embedding_key
          features_filename_key get_learning_rate_func optimizer_type True
          features (Some l) EVAL ps gr))
       = Some (summaries gf @ [(''embedding_mean_norm'', Reduce_mean (Norm out_f 1))])
   \<and> map_option summaries
        (graph_of (tf_triplet_loss_model_fn network scope_name features_embedding_key
          features_filename_key get_learning_rate_func optimizer_type True
          features (Some l) TRAIN ps gr))
       = Some (summaries gt @ [(''embedding_mean_norm'', Reduce_mean (Norm out_t 1)),
                 (''loss'', Batch_hard_triplet_loss (Cast l Int64) (L2_normalize out_t 0)
                    (margin ps) False)])
   \<and> L2_normalize out_f 0 \<noteq> L2_normalize out_f 1"
  using assms by (simp add: model_fn_defs)

theorem triplet_l2_normalize_witness:
  "network_example ''net'' features_example params_example False graph_example
     = (Given 0, graph_example\<lparr>update_ops := [Given 2]\<rparr>)
   \<and> network_example ''net'' features_example params_example True graph_example
     = (Given 1, graph_example\<lparr>update_ops := [Given 2]\<rparr>)
   \<and> features_example ''filename'' = Some (Given 4)
   \<and> ''embedding'' \<noteq> ''filename''
   \<and> map_option (\<lambda>spec. map_option (\<lambda>p. p ''embedding'') (predictions spec))
        (spec_of (tf_triplet_loss_model_fn network_example ''net'' ''embedding''
          ''filename'' (\<lambda>_. Given 6) adam True features_example None PREDICT
          params_example graph_example))
       = Some (Some (Some (L2_normalize (Given 0) 0)))
   \<and> map_option loss
        (spec_of (tf_triplet_loss_model_fn network_example ''net'' ''embedding''
          ''filename'' (\<lambda>_. Given 6) adam True features_example (Some (Given 7)) TRAIN
          params_example graph_example))
       = Some (Some (Batch_hard_triplet_loss (Cast (Given 7) Int64)
                  (L2_normalize (Given 1) 0) (1/2) False))
   \<and> map_option summaries
        (graph_of (tf_triplet_loss_model_fn network_example ''net'' ''embedding''
          ''filename'' (\<lambda>_. Given 6) adam True features_example (Some (Given 7)) EVAL
          params_example graph_example))
       = Some [(''embedding_mean_norm'', Reduce_mean (Norm (Given 0) 1))]"
proof -
  have a: "network_example ''net'' features_example params_example False graph_example
      = (Given 0, graph_example\<lparr>update_ops := [Given 2]\<rparr>)"
    by (simp add: network_example_def graph_example_def)
  have b: "network_example ''net'' features_example params_example True graph_example
      = (Given 1, graph_example\<lparr>update_ops := [Given 2]\<rparr>)"
    by (simp add: network_example_def graph_example_def)
  have c: "features_example ''filename'' = Some (Given 4)"
    by (simp add: features_example_def)
  have d: "''embedding'' \<noteq> ''filename''" by simp
  from triplet_l2_normalize [where network = network_example
      and scope_name = "''net''" and features = features_example and ps = params_example
      and gr = graph_example and out_f = "Given 0" and out_t = "Given 1"
      and gf = "graph_example\<lparr>update_ops := [Given 2]\<rparr>"
      and gt = "graph_example\<lparr>update_ops := [Given 2]\<rparr>"
      and features_embedding_key = "''embedding''"
      and features_filename_key = "''filename''" and filename = "Given 4"
      and get_learning_rate_func = "\<lambda>_. Given 6" and optimizer_type = adam
      and labels = None and l = "Given 7"]
  show ?thesis using a b c d by (simp add: params_example_def graph_example_def)
qed

text \<open>
  C10. In mode \<^verbatim>\<open>PREDICT\<close> neither model function reads the labels: the call returns
  what it returns for the labels \<^verbatim>\<open>None\<close>. When the features hold the file name, the keys
  of the predictions are \<^verbatim>\<open>features_embedding_key\<close> and \<^verbatim>\<open>features_filename_key\<close> for
  the triplet model function, and \<^verbatim>\<open>class\<close>, \<^verbatim>\<open>prob\<close> and \<^verbatim>\<open>filename\<close> for the softmax
  model function.
\<close>

theorem predict_ignores_labels:
  "tf_triplet_loss_model_fn network scope_name features_embedding_key
      features_filename_key get_learning_rate_func optimizer_type use_l2_normalize
      features labels PREDICT ps gr
   = tf_triplet_loss_model_fn network scope_name features_embedding_key
      features_filename_key get_learning_rate_func optimizer_type use_l2_normalize
      features None PREDICT ps gr
   \<and> tf_softmax_model_fn network scope_name features_filename_key
        get_learning_rate_func optimizer_type features labels PREDICT ps gr
     = tf_softmax_model_fn network scope_name features_filename_key
        get_learning_rate_func optimizer_type features None PREDICT ps gr
   \<and> (features features_filename_key \<noteq> None \<longrightarrow>
        map_option (map_option dom \<circ> predictions)
          (spec_of (tf_triplet_loss_model_fn network scope_name features_embedding_key
            features_filename_key get_learning_rate_func optimizer_type use_l2_normalize
            features None PREDICT ps gr))
        = Some (Some {features_embedding_key, features_filename_key})
      \<and> map_option (map_option dom \<circ> predictions)
          (spec_of (tf_softmax_model_fn network scope_name features_filename_key
            get_learning_rate_func optimizer_type features None PREDICT ps gr))
        = Some (Some {''class'', ''prob'', ''filename''}))"
  by (auto simp: model_fn_defs split: prod.splits)

theorem predict_ignores_labels_witness:
  "features_example ''filename'' \<noteq> None
   \<and> tf_triplet_loss_model_fn network_example ''net'' ''embedding'' ''filename''
        (\<lambda>_. Given 6) adam False features_example (Some (Given 7)) PREDICT
        params_example graph_example
     = tf_triplet_loss_model_fn network_example ''net'' ''embedding'' ''filename''
        (\<lambda>_. Given 6) adam False features_example None PREDICT
        params_example graph_example
   \<and> map_option (map_option dom \<circ> predictions)
        (spec_of (tf_triplet_loss_model_fn network_example ''net'' ''embedding''
          ''filename'' (\<lambda>_. Given 6) adam False features_example None PREDICT
          params_example graph_example))
     = Some (Some {''embedding'', ''filename''})
   \<and> map_option (map_option dom \<circ> predictions)
        (spec_of (tf_softmax_model_fn network_example ''net'' ''filename''
          (\<lambda>_. Given 6) adam features_example None PREDICT params_example graph_example))
     = Some (Some {''class'', ''prob'', ''filename''})"
proof -
  have a: "features_example ''filename'' \<noteq> None"
    by (simp add: features_example_def)
  from predict_ignores_labels [where features = features_example
      and features_filename_key = "''filename''"
      and network = network_example and scope_name = "''net''"
      and features_embedding_key = "''embedding''"
      and get_learning_rate_func = "\<lambda>_. Given 6" and optimizer_type = adam
      and use_l2_normalize = False and labels = "Some (Given 7)" and ps = params_example
      and gr = graph_example]
  show ?thesis using a by simp
qed

end
